theory Spec2Isabelle
  imports Main "HOL-Library.Word"
begin

unbundle bit_operations_syntax

section \<open>Go values: panics, errors, results\<close>

text \<open>
  A Go call either panics at run time, returns a non-nil \<open>error\<close> (with a nil value), or
  returns a value with a nil error. The three outcomes are the constructors of \<open>result\<close>.
\<close>

type_synonym byte = "8 word"
type_synonym uint16 = "16 word"

datatype panic = IndexOutOfRange | SliceBoundsOutOfRange | CloseOfClosedChannel

datatype kerror = ErrNoError | ErrTopicAlreadyExists | ErrRequestTimedOut | ErrOtherKError nat

datatype error =
    Errorf string
  | Wrapf string error
  | TopicError kerror
  | ErrTruncated
  | ErrInvalidField
  | OtherError string

datatype 'a result = Panic panic | Err error | Ok 'a

definition rbind :: "'a result \<Rightarrow> ('a \<Rightarrow> 'b result) \<Rightarrow> 'b result" where
  "rbind r f = (case r of Panic p \<Rightarrow> Panic p | Err e \<Rightarrow> Err e | Ok v \<Rightarrow> f v)"

section \<open>Go byte slices\<close>

text \<open>
  A \<open>[]byte\<close> is a window on a backing array: \<open>elems\<close> are the \<open>len\<close> bytes the slice
  shows, \<open>spare\<close> the bytes of the backing array that follow them up to the capacity.
  The language specification checks an index expression \<open>b[i]\<close> against \<open>len(b)\<close>, and the
  bounds of a slice expression \<open>b[lo:hi]\<close> on a slice against \<open>cap(b)\<close>
  (\<open>0 <= lo <= hi <= cap(b)\<close>); \<open>b[lo:]\<close> stands for \<open>b[lo:len(b)]\<close>. A slice literal and
  the result of \<open>make([]byte, n)\<close> have no spare bytes; the front \<open>buf[:n]\<close> of a longer
  buffer has the rest of the buffer as spare. \<open>copy(dst, src)\<close> overwrites the first
  \<open>min(len(dst), len(src))\<close> bytes of \<open>dst\<close>, and \<open>binary.BigEndian.Uint16(s)\<close> reads
  \<open>s[1]\<close> and \<open>s[0]\<close>.
\<close>

record slice =
  elems :: "byte list"
  spare :: "byte list"

definition nil_slice :: slice where
  "nil_slice = \<lparr>elems = [], spare = []\<rparr>"

definition bytes :: "byte list \<Rightarrow> slice" where
  "bytes xs = \<lparr>elems = xs, spare = []\<rparr>"

definition slice_len :: "slice \<Rightarrow> nat" where
  "slice_len b = length (elems b)"

definition slice_cap :: "slice \<Rightarrow> nat" where
  "slice_cap b = length (elems b) + length (spare b)"

definition backing :: "slice \<Rightarrow> byte list" where
  "backing b = elems b @ spare b"

definition index_expr :: "slice \<Rightarrow> nat \<Rightarrow> byte result" where
  "index_expr b i = (if i < slice_len b then Ok (elems b ! i) else Panic IndexOutOfRange)"

definition slice_expr :: "slice \<Rightarrow> nat \<Rightarrow> nat \<Rightarrow> slice result" where
  "slice_expr b lo hi =
     (if lo \<le> hi \<and> hi \<le> slice_cap b
      then Ok \<lparr>elems = take (hi - lo) (drop lo (backing b)), spare = drop hi (backing b)\<rparr>
      else Panic SliceBoundsOutOfRange)"

definition slice_from :: "slice \<Rightarrow> nat \<Rightarrow> slice result" where
  "slice_from b lo = slice_expr b lo (slice_len b)"

definition make_bytes :: "nat \<Rightarrow> slice" where
  "make_bytes n = \<lparr>elems = replicate n 0, spare = []\<rparr>"

definition copy_bytes :: "slice \<Rightarrow> slice \<Rightarrow> slice" where
  "copy_bytes dst src =
     (let n = min (slice_len dst) (slice_len src)
      in dst\<lparr>elems := take n (elems src) @ drop n (elems dst)\<rparr>)"

definition Uint16 :: "slice \<Rightarrow> uint16 result" where
  "Uint16 s =
     (if slice_len s < 2 then Panic IndexOutOfRange
      else Ok (ucast (elems s ! 1) OR push_bit 8 (ucast (elems s ! 0))))"

section \<open>Link descriptor TLVs (package base)\<close>

record LinkDescriptorTLV =
  Type :: uint16
  Length :: uint16
  Value :: slice

text \<open>One pass of the loop body of \<open>UnmarshalLinkDescriptorTLV\<close> at offset \<open>p\<close>: the TLV
  read there and the offset after it.
  \<^verbatim>\<open>ltlv.Type = binary.BigEndian.Uint16(b[p : p+2]); p += 2\<close>,
  \<^verbatim>\<open>ltlv.Length = binary.BigEndian.Uint16(b[p : p+2]); p += 2\<close>,
  \<^verbatim>\<open>ltlv.Value = make([]byte, ltlv.Length); copy(ltlv.Value, b[p:p+int(ltlv.Length)])\<close>,
  \<^verbatim>\<open>ltlvs = append(ltlvs, ltlv); p += int(ltlv.Length)\<close>.\<close>

definition tlv_step :: "slice \<Rightarrow> nat \<Rightarrow> (LinkDescriptorTLV \<times> nat) result" where
  "tlv_step b p =
     rbind (slice_expr b p (p + 2)) (\<lambda>s1.
     rbind (Uint16 s1) (\<lambda>ty.
     rbind (slice_expr b (p + 2) (p + 2 + 2)) (\<lambda>s2.
     rbind (Uint16 s2) (\<lambda>ln.
     rbind (slice_expr b (p + 2 + 2) (p + 2 + 2 + unat ln)) (\<lambda>s3.
       Ok (\<lparr>Type = ty, Length = ln, Value = copy_bytes (make_bytes (unat ln)) s3\<rparr>,
           p + 2 + 2 + unat ln))))))"

lemma tlv_step_advances:
  "tlv_step b p = Ok (t, p') \<Longrightarrow> p' = p + 4 + unat (Length t)"
  by (auto simp: tlv_step_def rbind_def split: result.splits)

text \<open>The loop \<^verbatim>\<open>for p := 0; p < len(b); { ... }\<close> and the final
  \<^verbatim>\<open>return ltlvs, nil\<close>.\<close>

function tlv_loop :: "slice \<Rightarrow> nat \<Rightarrow> LinkDescriptorTLV list \<Rightarrow> LinkDescriptorTLV list result" where
  "tlv_loop b p ltlvs =
     (if p < slice_len b
      then (case tlv_step b p of
              Panic e \<Rightarrow> Panic e
            | Err e \<Rightarrow> Err e
            | Ok (ltlv, p') \<Rightarrow> tlv_loop b p' (ltlvs @ [ltlv]))
      else Ok ltlvs)"
  by pat_completeness auto
termination
  by (relation "measure (\<lambda>(b, p, ltlvs). slice_len b - p)")
     (auto dest: tlv_step_advances)

definition UnmarshalLinkDescriptorTLV :: "slice \<Rightarrow> LinkDescriptorTLV list result" where
  "UnmarshalLinkDescriptorTLV b = tlv_loop b 0 []"


text \<open>The wire image of a TLV: two bytes of type, two of length (both big-endian), then
  the value bytes. It is the format the walker reads, used to state what a walk returns.\<close>

definition wire :: "LinkDescriptorTLV \<Rightarrow> byte list" where
  "wire t =
     [ucast (drop_bit 8 (LinkDescriptorTLV.Type t)), ucast (LinkDescriptorTLV.Type t),
      ucast (drop_bit 8 (LinkDescriptorTLV.Length t)), ucast (LinkDescriptorTLV.Length t)]
     @ elems (LinkDescriptorTLV.Value t)"

definition consumed :: "LinkDescriptorTLV list \<Rightarrow> nat" where
  "consumed ts = (\<Sum>t\<leftarrow>ts. 4 + unat (LinkDescriptorTLV.Length t))"

section \<open>BGP-LS NLRI (package bgpls)\<close>

text \<open>Modelled from the spec: the declaration of \<open>bgpls.TLV\<close> is not among the sources; the
  spec's data model gives it as a triple (type:uint16, length:uint16, value:bytes).\<close>

record TLV =
  Type :: uint16
  Length :: uint16
  Value :: slice

record NLRI =
  LS :: "TLV list"

text \<open>The \<open>range\<close> loop of \<open>GetNodeFlags\<close> over \<open>ls.LS\<close>.\<close>

fun node_flags_loop :: "TLV list \<Rightarrow> byte result" where
  "node_flags_loop [] = Ok 0"
| "node_flags_loop (tlv # rest) =
     (if TLV.Type tlv \<noteq> 1024 then node_flags_loop rest
      else index_expr (TLV.Value tlv) 0)"

definition GetNodeFlags :: "NLRI \<Rightarrow> byte result" where
  "GetNodeFlags ls = node_flags_loop (LS ls)"

section \<open>EVPN MAC/IP Advertisement (package evpn)\<close>

text \<open>
  \<open>base.MakeRD\<close>, \<open>MakeESI\<close>, \<open>MakeMACAddress\<close> and \<open>base.MakeLabel\<close> are not among the
  sources: the route parser takes them as parameters, each a function from the bytes it is
  handed to a result of a type of its own.
\<close>

record ('rd, 'esi, 'mac, 'lbl) primitives =
  MakeRD :: "slice \<Rightarrow> 'rd result"
  MakeESI :: "slice \<Rightarrow> 'esi result"
  MakeMACAddress :: "slice \<Rightarrow> 'mac result"
  MakeLabel :: "slice \<Rightarrow> 'lbl result"

text \<open>Pointer fields are \<open>None\<close> when nil; \<open>EthTag\<close> and \<open>IPAddr\<close> start as nil slices.\<close>

record ('rd, 'esi, 'mac, 'lbl) MACIPAdvertisement =
  RD :: "'rd option"
  ESI :: "'esi option"
  EthTag :: slice
  MACAddrLength :: byte
  MACAddr :: "'mac option"
  IPAddrLength :: byte
  IPAddr :: slice
  Label :: "'lbl list"

text \<open>The label loop:
  \<^verbatim>\<open>for i := 0; p < len(b); i++ { l, err := base.MakeLabel(b[p:]); ...; t.Label = append(t.Label, l); p += 3 }\<close>.\<close>

function label_loop :: "(slice \<Rightarrow> 'lbl result) \<Rightarrow> slice \<Rightarrow> nat \<Rightarrow> 'lbl list \<Rightarrow> 'lbl list result" where
  "label_loop mk b p ls =
     (if p < slice_len b
      then (case slice_from b p of
              Panic e \<Rightarrow> Panic e
            | Err e \<Rightarrow> Err e
            | Ok s \<Rightarrow>
               (case mk s of
                  Panic e \<Rightarrow> Panic e
                | Err e \<Rightarrow> Err e
                | Ok l \<Rightarrow> label_loop mk b (p + 3) (ls @ [l])))
      else Ok ls)"
  by pat_completeness auto
termination
  by (relation "measure (\<lambda>(mk, b, p, ls). slice_len b - p)") auto

text \<open>
  The body of \<open>UnmarshalEVPNMACIPAdvertisement\<close>, statement by statement, \<open>p\<close> being the
  read offset:
  \<^verbatim>\<open>t.RD, err = base.MakeRD(b[p : p+8]); p += 8\<close>,
  \<^verbatim>\<open>t.ESI, err = MakeESI(b[p : p+10]); p += 10\<close>,
  \<^verbatim>\<open>copy(t.EthTag, b[p:p+4]); p += 4\<close>,
  \<^verbatim>\<open>t.MACAddrLength = b[p]; p++; l := int(t.MACAddrLength / 8)\<close>,
  \<^verbatim>\<open>if l != 0 { t.MACAddr, err = MakeMACAddress(b[p : p+l]); p += l }\<close>,
  \<^verbatim>\<open>t.IPAddrLength = b[p]; p++; l = int(t.IPAddrLength / 8)\<close>,
  \<^verbatim>\<open>if t.IPAddrLength != 0 { t.IPAddr = make([]byte, l); copy(t.IPAddr, b[p:p+l]); p += l }\<close>,
  then the label loop. Each \<open>err != nil\<close> returns the error at once.
\<close>

definition UnmarshalEVPNMACIPAdvertisement ::
  "('rd, 'esi, 'mac, 'lbl) primitives \<Rightarrow> slice \<Rightarrow> ('rd, 'esi, 'mac, 'lbl) MACIPAdvertisement result" where
  "UnmarshalEVPNMACIPAdvertisement prim b =
     (let p = 0 in
      rbind (slice_expr b p (p + 8)) (\<lambda>s.
      rbind (MakeRD prim s) (\<lambda>rd.
      let p = p + 8 in
      rbind (slice_expr b p (p + 10)) (\<lambda>s.
      rbind (MakeESI prim s) (\<lambda>esi.
      let p = p + 10 in
      rbind (slice_expr b p (p + 4)) (\<lambda>s.
      let ethTag = copy_bytes nil_slice s; p = p + 4 in
      rbind (index_expr b p) (\<lambda>macLen.
      let p = p + 1; l = unat (macLen div 8) in
      rbind (if l \<noteq> 0
             then rbind (slice_expr b p (p + l)) (\<lambda>s.
                  rbind (MakeMACAddress prim s) (\<lambda>m. Ok (Some m, p + l)))
             else Ok (None, p)) (\<lambda>(mac, p).
      rbind (index_expr b p) (\<lambda>ipLen.
      let p = p + 1; l = unat (ipLen div 8) in
      rbind (if ipLen \<noteq> 0
             then rbind (slice_expr b p (p + l)) (\<lambda>s.
                  Ok (copy_bytes (make_bytes l) s, p + l))
             else Ok (nil_slice, p)) (\<lambda>(ip, p).
      rbind (label_loop (MakeLabel prim) b p []) (\<lambda>labels.
        Ok \<lparr>RD = Some rd, ESI = Some esi, EthTag = ethTag,
            MACAddrLength = macLen, MACAddr = mac,
            IPAddrLength = ipLen, IPAddr = ip, Label = labels\<rparr>)))))))))))"

subsection \<open>The wire primitives of the spec\<close>

text \<open>Modelled from the spec: \<open>DecodeRD(8 bytes)\<close>, whose first two bytes are the type
  (0/1/2) and which fails if the type is above 2; here the remaining six bytes are kept raw.
  A primitive fails with \<open>ErrTruncated\<close> on short input.\<close>

definition spec_MakeRD :: "slice \<Rightarrow> (uint16 \<times> byte list) result" where
  "spec_MakeRD s =
     (if slice_len s < 8 then Err ErrTruncated
      else rbind (Uint16 s) (\<lambda>ty.
        if ty > 2 then Err ErrInvalidField else Ok (ty, take 6 (drop 2 (elems s)))))"

text \<open>Modelled from the spec: \<open>DecodeESI(10 bytes)\<close>, one type byte and nine raw value
  bytes.\<close>

definition spec_MakeESI :: "slice \<Rightarrow> (byte \<times> byte list) result" where
  "spec_MakeESI s =
     (if slice_len s < 10 then Err ErrTruncated
      else Ok (elems s ! 0, take 9 (drop 1 (elems s))))"

text \<open>Modelled from the spec: \<open>DecodeMACAddress(6 bytes)\<close>.\<close>

definition spec_MakeMACAddress :: "slice \<Rightarrow> byte list result" where
  "spec_MakeMACAddress s =
     (if slice_len s < 6 then Err ErrTruncated else Ok (take 6 (elems s)))"

text \<open>Modelled from the spec: \<open>DecodeLabel(3 bytes)\<close>, which returns the 20-bit label, the
  three experimental bits and the bottom-of-stack bit.\<close>

definition spec_MakeLabel :: "slice \<Rightarrow> (nat \<times> nat \<times> bool) result" where
  "spec_MakeLabel s =
     (if slice_len s < 3 then Err ErrTruncated
      else Ok (unat (elems s ! 0) * 4096 + unat (elems s ! 1) * 16 + unat (elems s ! 2) div 16,
               (unat (elems s ! 2) div 2) mod 8,
               unat (elems s ! 2) mod 2 = 1))"

definition spec_primitives ::
  "(uint16 \<times> byte list, byte \<times> byte list, byte list, nat \<times> nat \<times> bool) primitives" where
  "spec_primitives =
     \<lparr>MakeRD = spec_MakeRD, MakeESI = spec_MakeESI,
      MakeMACAddress = spec_MakeMACAddress, MakeLabel = spec_MakeLabel\<rparr>"


section \<open>Kafka publisher (package kafka)\<close>

definition peerTopic :: string where
  "peerTopic = ''gobmp.parsed.peer''"

definition unicastMessageTopic :: string where
  "unicastMessageTopic = ''gobmp.parsed.unicast_prefix''"

definition lsNodeMessageTopic :: string where
  "lsNodeMessageTopic = ''gobmp.parsed.ls_node''"

definition lsLinkMessageTopic :: string where
  "lsLinkMessageTopic = ''gobmp.parsed.ls_link''"

definition l3vpnMessageTopic :: string where
  "l3vpnMessageTopic = ''gobmp.parsed.l3vpn''"

definition lsPrefixMessageTopic :: string where
  "lsPrefixMessageTopic = ''gobmp.parsed.ls_prefix''"

definition lsSRv6SIDMessageTopic :: string where
  "lsSRv6SIDMessageTopic = ''gobmp.parsed.ls_srv6_sid''"

definition evpnMessageTopic :: string where
  "evpnMessageTopic = ''gobmp.parsed.evpn''"

text \<open>Durations are in milliseconds.\<close>

definition brockerConnectTimeout :: nat where
  "brockerConnectTimeout = 10 * 1000"

definition topicCreateTimeout :: nat where
  "topicCreateTimeout = 1 * 1000"

definition topicNames :: "string list" where
  "topicNames =
     [peerTopic, unicastMessageTopic, lsNodeMessageTopic, lsLinkMessageTopic,
      l3vpnMessageTopic, lsPrefixMessageTopic, lsSRv6SIDMessageTopic, evpnMessageTopic]"

text \<open>The message-type constants of package \<open>bmp\<close> are not among the sources: their values
  are a parameter. They are the case labels of one Go \<open>switch\<close>, which the compiler accepts
  only when the integer constants are pairwise distinct.\<close>

record msg_types =
  PeerStateChangeMsg :: int
  UnicastPrefixMsg :: int
  LSNodeMsg :: int
  LSLinkMsg :: int
  L3VPNMsg :: int
  LSPrefixMsg :: int
  LSSRv6SIDMsg :: int
  EVPNMsg :: int

definition known_types :: "msg_types \<Rightarrow> int list" where
  "known_types c =
     [PeerStateChangeMsg c, UnicastPrefixMsg c, LSNodeMsg c, LSLinkMsg c,
      L3VPNMsg c, LSPrefixMsg c, LSSRv6SIDMsg c, EVPNMsg c]"

definition example_types :: msg_types where
  "example_types =
     \<lparr>PeerStateChangeMsg = 1, UnicastPrefixMsg = 2, LSNodeMsg = 3, LSLinkMsg = 4,
      L3VPNMsg = 5, LSPrefixMsg = 6, LSSRv6SIDMsg = 7, EVPNMsg = 8\<rparr>"

record ProducerMessage =
  Topic :: string
  Key :: slice
  Value :: slice

datatype chan_state = ChanOpen | ChanClosed

datatype conn_state = ConnOpen | ConnClosed

text \<open>
  The publisher as the methods below see it: the broker connection, the messages handed
  to the producer's input channel so far (oldest first), and the stop channel. The
  \<open>config\<close> field is read by none of them. A send on the input channel is modelled as
  an append: the channel is taken to accept the message.
\<close>

record publisher =
  broker :: conn_state
  producer :: "ProducerMessage list"
  stopCh :: chan_state

definition produceMessage ::
  "publisher \<Rightarrow> string \<Rightarrow> slice \<Rightarrow> slice \<Rightarrow> error option \<times> publisher" where
  "produceMessage p topic key msg =
     (let k = key; m = msg
      in (None, p\<lparr>producer := producer p @ [\<lparr>Topic = topic, Key = k, ProducerMessage.Value = m\<rparr>]\<rparr>))"

definition PublishMessage ::
  "msg_types \<Rightarrow> publisher \<Rightarrow> int \<Rightarrow> slice \<Rightarrow> slice \<Rightarrow> error option \<times> publisher" where
  "PublishMessage c p t key msg =
     (if t = PeerStateChangeMsg c then produceMessage p peerTopic key msg
      else if t = UnicastPrefixMsg c then produceMessage p unicastMessageTopic key msg
      else if t = LSNodeMsg c then produceMessage p lsNodeMessageTopic key msg
      else if t = LSLinkMsg c then produceMessage p lsLinkMessageTopic key msg
      else if t = L3VPNMsg c then produceMessage p l3vpnMessageTopic key msg
      else if t = LSPrefixMsg c then produceMessage p lsPrefixMessageTopic key msg
      else if t = LSSRv6SIDMsg c then produceMessage p lsSRv6SIDMessageTopic key msg
      else if t = EVPNMsg c then produceMessage p evpnMessageTopic key msg
      else (Some (Errorf ''not implemented''), p))"

text \<open>\<open>close\<close> of a closed channel panics; \<open>Broker.Close\<close> leaves the connection closed and
  its error is dropped by the caller.\<close>

definition Stop :: "publisher \<Rightarrow> publisher result" where
  "Stop p =
     (case stopCh p of
        ChanClosed \<Rightarrow> Panic CloseOfClosedChannel
      | ChanOpen \<Rightarrow> Ok (p\<lparr>stopCh := ChanClosed, broker := ConnClosed\<rparr>))"

subsection \<open>Address validation\<close>

text \<open>
  The functions of the Go library that \<open>validator\<close> calls, as parameters, each returning
  what the Go function returns: \<open>net.SplitHostPort\<close> (host, port, error),
  \<open>net.LookupIP\<close> (addresses or nil, error), \<open>net.ParseIP\<close> (address or nil) and
  \<open>strconv.Atoi\<close> (value, error).
\<close>

record 'ip netlib =
  SplitHostPort :: "string \<Rightarrow> string \<times> string \<times> error option"
  LookupIP :: "string \<Rightarrow> 'ip list option \<times> error option"
  ParseIP :: "string \<Rightarrow> 'ip option"
  Atoi :: "string \<Rightarrow> int \<times> error option"

definition validator :: "'ip netlib \<Rightarrow> string \<Rightarrow> error option" where
  "validator env addr =
     (case SplitHostPort env addr of (host, port, _) \<Rightarrow>
        if host = [] \<or> port = []
        then Some (Errorf (''host or port cannot be '' @ [CHR 0x27, CHR 0x27]))
        else if (case LookupIP env host of (ip, err) \<Rightarrow> err \<noteq> None \<or> ip = None)
                \<and> ParseIP env host = None
        then Some (Errorf ''fail to parse host part of address'')
        else (case Atoi env port of
                (np, Some err) \<Rightarrow> Some (Wrapf ''fail to parse port with error: '' err)
              | (np, None) \<Rightarrow>
                  if np = 0 \<or> np > 65535
                  then Some (Errorf ''the value of port is invalid'')
                  else None))"


subsection \<open>An instance of the library functions\<close>

text \<open>
  One environment to run \<open>validator\<close> in. \<open>go_SplitHostPort\<close> follows
  \<open>net.SplitHostPort\<close> (the port starts after the last colon; a bracketed host ends at
  the first \<open>]\<close>, which must stand just before that colon) and \<open>go_Atoi\<close> follows
  \<open>strconv.Atoi\<close> (an optional sign and decimal digits, within 64 bits). The host
  functions know IPv4 dotted-decimal literals only: \<open>ipv4_ParseIP\<close> parses them, and
  \<open>literal_LookupIP\<close> is a resolver without a name service, which answers for a literal
  with the literal itself and fails for every other name.
\<close>

fun IndexByte :: "string \<Rightarrow> char \<Rightarrow> nat option" where
  "IndexByte [] c = None"
| "IndexByte (x # xs) c = (if x = c then Some 0 else map_option Suc (IndexByte xs c))"

definition LastIndexByte :: "string \<Rightarrow> char \<Rightarrow> nat option" where
  "LastIndexByte s c = map_option (\<lambda>k. length s - 1 - k) (IndexByte (rev s) c)"

definition addrErr :: "string \<Rightarrow> string \<times> string \<times> error option" where
  "addrErr why = ([], [], Some (OtherError why))"

definition go_SplitHostPort :: "string \<Rightarrow> string \<times> string \<times> error option" where
  "go_SplitHostPort hostport =
     (case LastIndexByte hostport (CHR '':'') of
        None \<Rightarrow> addrErr ''missing port in address''
      | Some i \<Rightarrow>
         (let bad = (\<lambda>j k.
                if IndexByte (drop j hostport) (CHR ''['') \<noteq> None
                then Some (addrErr ''unexpected [ in address'')
                else if IndexByte (drop k hostport) (CHR '']'') \<noteq> None
                then Some (addrErr ''unexpected ] in address'')
                else None);
              port = drop (i + 1) hostport
          in if take 1 hostport = ''[''
             then (case IndexByte hostport (CHR '']'') of
                     None \<Rightarrow> addrErr ''missing ] in address''
                   | Some e \<Rightarrow>
                      if e + 1 = length hostport then addrErr ''missing port in address''
                      else if e + 1 = i
                      then (case bad 1 (e + 1) of
                              Some r \<Rightarrow> r
                            | None \<Rightarrow> (take (e - 1) (drop 1 hostport), port, None))
                      else if hostport ! (e + 1) = CHR '':''
                      then addrErr ''too many colons in address''
                      else addrErr ''missing port in address'')
             else if IndexByte (take i hostport) (CHR '':'') \<noteq> None
             then addrErr ''too many colons in address''
             else (case bad 0 0 of
                     Some r \<Rightarrow> r
                   | None \<Rightarrow> (take i hostport, port, None))))"

definition digit_val :: "char \<Rightarrow> nat option" where
  "digit_val c =
     (let n = (of_char c :: nat) in if 48 \<le> n \<and> n \<le> 57 then Some (n - 48) else None)"

fun digits_val :: "string \<Rightarrow> nat \<Rightarrow> nat option" where
  "digits_val [] acc = Some acc"
| "digits_val (c # cs) acc =
     (case digit_val c of None \<Rightarrow> None | Some d \<Rightarrow> digits_val cs (acc * 10 + d))"

definition go_Atoi :: "string \<Rightarrow> int \<times> error option" where
  "go_Atoi s =
     (let (neg, ds) =
            (if take 1 s = ''-'' then (True, drop 1 s)
             else if take 1 s = ''+'' then (False, drop 1 s)
             else (False, s))
      in if ds = [] then (0, Some (OtherError ''invalid syntax''))
         else (case digits_val ds 0 of
                 None \<Rightarrow> (0, Some (OtherError ''invalid syntax''))
               | Some n \<Rightarrow>
                  if neg \<and> int n > 2 ^ 63
                  then (- (2 ^ 63), Some (OtherError ''value out of range''))
                  else if \<not> neg \<and> int n \<ge> 2 ^ 63
                  then (2 ^ 63 - 1, Some (OtherError ''value out of range''))
                  else (if neg then - int n else int n, None)))"

fun split_dots :: "string \<Rightarrow> string \<Rightarrow> string list" where
  "split_dots [] cur = [cur]"
| "split_dots (c # cs) cur =
     (if c = CHR ''.'' then cur # split_dots cs [] else split_dots cs (cur @ [c]))"

definition octet :: "string \<Rightarrow> byte option" where
  "octet s =
     (if s = [] \<or> length s > 3 \<or> (length s > 1 \<and> take 1 s = ''0'') then None
      else (case digits_val s 0 of
              None \<Rightarrow> None
            | Some n \<Rightarrow> if n \<le> 255 then Some (of_nat n) else None))"

definition ipv4_ParseIP :: "string \<Rightarrow> byte list option" where
  "ipv4_ParseIP s =
     (case map octet (split_dots s []) of
        [Some a, Some b, Some c, Some d] \<Rightarrow> Some [a, b, c, d]
      | _ \<Rightarrow> None)"

definition literal_LookupIP :: "string \<Rightarrow> byte list list option \<times> error option" where
  "literal_LookupIP host =
     (case ipv4_ParseIP host of
        Some ip \<Rightarrow> (Some [ip], None)
      | None \<Rightarrow> (None, Some (OtherError ''no such host'')))"

definition example_net :: "byte list netlib" where
  "example_net =
     \<lparr>SplitHostPort = go_SplitHostPort, LookupIP = literal_LookupIP,
      ParseIP = ipv4_ParseIP, Atoi = go_Atoi\<rparr>"

subsection \<open>Topic provisioning\<close>

text \<open>
  The broker is the list of replies its \<open>CreateTopics\<close> will give, in order: a transport
  error, or a response whose \<open>TopicErrors\<close> maps topic names to error codes. The Go runtime
  decides which channel each \<open>select\<close> receives from; it is a parameter that, given the
  ticker's period and the timer's duration, gives the successive outcomes. A run returns
  \<open>None\<close> when the replies or the outcomes end before \<open>ensureTopic\<close> has returned, and
  otherwise the returned error together with the replies not yet used.
\<close>

datatype select_event = Tick | Timeout

type_synonym CreateTopicsResponse = "string \<rightharpoonup> kerror"

type_synonym sarama_broker = "(error + CreateTopicsResponse) list"

fun ensureTopic_loop ::
  "sarama_broker \<Rightarrow> select_event list \<Rightarrow> string \<Rightarrow> (error option \<times> sarama_broker) option" where
  "ensureTopic_loop [] evs topicName = None"
| "ensureTopic_loop (r # br) evs topicName =
     (case r of
        Inl err \<Rightarrow> Some (Some err, br)
      | Inr t \<Rightarrow>
         (case (case t topicName of
                  Some e \<Rightarrow>
                    if e = ErrTopicAlreadyExists \<or> e = ErrNoError then Some None
                    else if e \<noteq> ErrRequestTimedOut then Some (Some (TopicError e))
                    else None
                | None \<Rightarrow> None) of
            Some ret \<Rightarrow> Some (ret, br)
          | None \<Rightarrow>
             (case evs of
                [] \<Rightarrow> None
              | Tick # evs' \<Rightarrow> ensureTopic_loop br evs' topicName
              | Timeout # evs' \<Rightarrow>
                  Some (Some (Errorf (''timeout waiting for topic '' @ topicName)), br))))"

definition ensureTopic ::
  "sarama_broker \<Rightarrow> (nat \<Rightarrow> nat \<Rightarrow> select_event list) \<Rightarrow> nat \<Rightarrow> string
     \<Rightarrow> (error option \<times> sarama_broker) option" where
  "ensureTopic br runtime timeout topicName =
     ensureTopic_loop br (runtime 100 timeout) topicName"

text \<open>The loop of \<open>NewKafkaPublisher\<close> over the topic names: the first error ends it.\<close>

fun ensureTopics ::
  "sarama_broker \<Rightarrow> (nat \<Rightarrow> nat \<Rightarrow> select_event list) \<Rightarrow> string list
     \<Rightarrow> (error option \<times> sarama_broker) option" where
  "ensureTopics br runtime [] = Some (None, br)"
| "ensureTopics br runtime (t # ts) =
     (case ensureTopic br runtime topicCreateTimeout t of
        None \<Rightarrow> None
      | Some (Some err, br') \<Rightarrow> Some (Some err, br')
      | Some (None, br') \<Rightarrow> ensureTopics br' runtime ts)"


subsection \<open>Example values\<close>

text \<open>The body of a MAC/IP Advertisement route: RD \<open>0:100:1\<close>, an all-zero ESI, Ethernet
  Tag 5, MAC length 48 and \<open>aa:bb:cc:dd:ee:ff\<close>, IP length 32 and \<open>10.0.0.5\<close>, and the
  label 10 with the bottom-of-stack bit.\<close>

definition example_macip_body :: "byte list" where
  "example_macip_body =
     [0, 0, 0, 100, 0, 0, 0, 1,
      0, 0, 0, 0, 0, 0, 0, 0, 0, 0,
      0, 0, 0, 5,
      48, 170, 187, 204, 221, 238, 255,
      32, 10, 0, 0, 5,
      0, 0, 161]"

text \<open>The publisher as \<open>NewKafkaPublisher\<close> returns it.\<close>

definition new_publisher :: publisher where
  "new_publisher = \<lparr>broker = ConnOpen, producer = [], stopCh = ChanOpen\<rparr>"

text \<open>A runtime in which the timer fires after \<open>timeout div period\<close> ticks.\<close>

definition ideal_runtime :: "nat \<Rightarrow> nat \<Rightarrow> select_event list" where
  "ideal_runtime period timeout = replicate (timeout div period) Tick @ [Timeout]"

text \<open>A reply that carries a request-timeout for the topic.\<close>

definition timed_out :: "string \<Rightarrow> (error + CreateTopicsResponse) \<Rightarrow> bool" where
  "timed_out topicName r =
     (case r of Inl err \<Rightarrow> False | Inr t \<Rightarrow> t topicName = Some ErrRequestTimedOut)"

section \<open>The TLV walker\<close>

subsection \<open>One TLV\<close>

lemma be16_hi:
  "(ucast (drop_bit 8 (ucast (lo::byte) OR push_bit 8 (ucast (hi::byte)) :: uint16)) :: byte) = hi"
  by (rule bit_word_eqI) (auto simp: bit_simps dest: bit_imp_le_length)

lemma be16_lo:
  "(ucast (ucast (lo::byte) OR push_bit 8 (ucast (hi::byte)) :: uint16) :: byte) = lo"
  by (rule bit_word_eqI) (auto simp: bit_simps)

lemma Uint16_wire:
  assumes "Uint16 s = Ok w" "length (elems s) = 2"
  shows "[ucast (drop_bit 8 w), ucast w] = elems s"
proof -
  obtain x y where xy: "elems s = [x, y]"
    using assms(2) by (cases "elems s"; cases "tl (elems s)") auto
  with assms(1) have "w = ucast y OR push_bit 8 (ucast x)"
    by (simp add: Uint16_def slice_len_def split: if_splits)
  with xy show ?thesis by (simp only: be16_hi be16_lo)
qed

lemma slice_expr_Ok:
  assumes "slice_expr b lo hi = Ok s"
  shows "lo \<le> hi" "hi \<le> slice_cap b"
    "elems s = take (hi - lo) (drop lo (backing b))"
    "spare s = drop hi (backing b)"
  using assms by (auto simp: slice_expr_def split: if_splits)

lemma take3:
  "take (i + (j + k)) (drop p xs) =
     take i (drop p xs) @ take j (drop (p + i) xs) @ take k (drop (p + i + j) xs)"
  by (simp add: take_add add.commute add.left_commute)

lemma take_take_drop:
  assumes "p \<le> p'" "p' \<le> q"
  shows "take (p' - p) (drop p xs) @ take (q - p') (drop p' xs) = take (q - p) (drop p xs)"
proof -
  have "take ((p' - p) + (q - p')) (drop p xs) =
      take (p' - p) (drop p xs) @ take (q - p') (drop (p' - p) (drop p xs))"
    by (rule take_add)
  with assms show ?thesis by simp
qed

lemma copy_make: "slice_len s = n \<Longrightarrow> copy_bytes (make_bytes n) s = bytes (elems s)"
  by (simp add: copy_bytes_def make_bytes_def slice_len_def bytes_def)

lemma tlv_step_Ok:
  assumes "tlv_step b p = Ok (t, p')"
  obtains s1 s2 s3 where
    "slice_expr b p (p + 2) = Ok s1" "Uint16 s1 = Ok (LinkDescriptorTLV.Type t)"
    "slice_expr b (p + 2) (p + 2 + 2) = Ok s2" "Uint16 s2 = Ok (LinkDescriptorTLV.Length t)"
    "slice_expr b (p + 2 + 2) (p + 2 + 2 + unat (LinkDescriptorTLV.Length t)) = Ok s3"
    "LinkDescriptorTLV.Value t = copy_bytes (make_bytes (unat (LinkDescriptorTLV.Length t))) s3"
    "p' = p + 2 + 2 + unat (LinkDescriptorTLV.Length t)"
proof -
  from assms obtain s1 ty s2 ln s3 where
    "slice_expr b p (p + 2) = Ok s1" "Uint16 s1 = Ok ty"
    "slice_expr b (p + 2) (p + 2 + 2) = Ok s2" "Uint16 s2 = Ok ln"
    "slice_expr b (p + 2 + 2) (p + 2 + 2 + unat ln) = Ok s3"
    "t = \<lparr>LinkDescriptorTLV.Type = ty, Length = ln, Value = copy_bytes (make_bytes (unat ln)) s3\<rparr>"
    "p' = p + 2 + 2 + unat ln"
    unfolding tlv_step_def rbind_def by (simp split: result.splits)
  then show ?thesis by (intro that [of s1 s2 s3]) simp_all
qed

text \<open>A pass of the loop body that succeeds has read, from the backing array at offset
  \<open>p\<close>, the wire image of the TLV it returns, and stayed within the capacity.\<close>

lemma tlv_step_wire:
  assumes "tlv_step b p = Ok (t, p')"
  shows "p' = p + 4 + unat (LinkDescriptorTLV.Length t)" "p' \<le> slice_cap b"
    "wire t = take (p' - p) (drop p (backing b))"
    "LinkDescriptorTLV.Value t =
       bytes (take (unat (LinkDescriptorTLV.Length t)) (drop (p + 4) (backing b)))"
proof -
  let ?xs = "backing b" and ?L = "unat (LinkDescriptorTLV.Length t)"
  from assms obtain s1 s2 s3 where s:
    "slice_expr b p (p + 2) = Ok s1" "Uint16 s1 = Ok (LinkDescriptorTLV.Type t)"
    "slice_expr b (p + 2) (p + 2 + 2) = Ok s2" "Uint16 s2 = Ok (LinkDescriptorTLV.Length t)"
    "slice_expr b (p + 2 + 2) (p + 2 + 2 + ?L) = Ok s3"
    "LinkDescriptorTLV.Value t = copy_bytes (make_bytes ?L) s3"
    and p'0: "p' = p + 2 + 2 + ?L"
    by (rule tlv_step_Ok)
  show p': "p' = p + 4 + ?L" using p'0 by simp
  have cap: "p + 4 + ?L \<le> length ?xs"
    using slice_expr_Ok(2) [OF s(5)] by (simp add: slice_cap_def backing_def)
  have e1: "elems s1 = take 2 (drop p ?xs)"
    using slice_expr_Ok(3) [OF s(1)] by simp
  have e2: "elems s2 = take 2 (drop (p + 2) ?xs)"
    using slice_expr_Ok(3) [OF s(3)] by simp
  have e3: "elems s3 = take ?L (drop (p + 2 + 2) ?xs)"
    using slice_expr_Ok(3) [OF s(5)] by simp
  have l1: "length (elems s1) = 2" and l2: "length (elems s2) = 2"
    and l3: "slice_len s3 = ?L"
    using cap by (simp_all add: e1 e2 e3 slice_len_def)
  have v: "LinkDescriptorTLV.Value t = bytes (elems s3)"
    using s(6) l3 by (simp add: copy_make)
  have "wire t = elems s1 @ elems s2 @ elems s3"
    using Uint16_wire [OF s(2) l1] Uint16_wire [OF s(4) l2] v
    by (simp add: wire_def bytes_def)
  also have "\<dots> = take (2 + (2 + ?L)) (drop p ?xs)"
    by (simp only: e1 e2 e3 take3)
  finally have "wire t = take (2 + (2 + ?L)) (drop p ?xs)" .
  moreover have "p' - p = 2 + (2 + ?L)" by (simp add: p')
  ultimately show "wire t = take (p' - p) (drop p (backing b))"
    by (simp only:)
  show "p' \<le> slice_cap b" using cap by (simp add: p' slice_cap_def backing_def)
  show "LinkDescriptorTLV.Value t = bytes (take ?L (drop (p + 4) (backing b)))"
    using v e3 by (simp add: numeral_Bit0)
qed

lemma wire_length: "length (wire t) = 4 + slice_len (LinkDescriptorTLV.Value t)"
  by (simp add: wire_def slice_len_def)

subsection \<open>The loop\<close>

lemma tlv_loop_wire:
  assumes "tlv_loop b p acc = Ok ts" "p \<le> slice_cap b"
  shows "\<exists>q. slice_len b \<le> q \<and> p \<le> q \<and> q \<le> slice_cap b \<and>
    concat (map wire ts) = concat (map wire acc) @ take (q - p) (drop p (backing b))"
  using assms
proof (induction b p acc rule: tlv_loop.induct)
  case (1 b p ltlvs)
  show ?case
  proof (cases "p < slice_len b")
    case False
    with "1.prems" have "ts = ltlvs" by simp
    with False "1.prems" show ?thesis by (intro exI [of _ p]) simp
  next
    case True
    with "1.prems" obtain t p' where st: "tlv_step b p = Ok (t, p')"
      and rec: "tlv_loop b p' (ltlvs @ [t]) = Ok ts"
      by (auto split: result.splits)
    note w = tlv_step_wire [OF st]
    from "1.IH" [OF True st refl rec w(2)] obtain q where q:
      "slice_len b \<le> q" "p' \<le> q" "q \<le> slice_cap b"
      "concat (map wire ts) =
         concat (map wire (ltlvs @ [t])) @ take (q - p') (drop p' (backing b))"
      by blast
    have pp: "p \<le> p'" using w(1) by simp
    have "concat (map wire ts) = concat (map wire ltlvs) @ take (q - p) (drop p (backing b))"
      using q(4) take_take_drop [OF pp q(2), of "backing b"] by (simp add: w(3))
    with q pp show ?thesis by (intro exI [of _ q]) simp
  qed
qed

lemma tlv_step_value:
  assumes "tlv_step b p = Ok (t, p')"
  shows "slice_len (LinkDescriptorTLV.Value t) = unat (LinkDescriptorTLV.Length t)"
    "spare (LinkDescriptorTLV.Value t) = []"
proof -
  let ?L = "unat (LinkDescriptorTLV.Length t)"
  have "p + 4 + ?L \<le> length (backing b)"
    using tlv_step_wire(1,2) [OF assms] by (simp add: slice_cap_def backing_def)
  then have "length (take ?L (drop (p + 4) (backing b))) = ?L" by simp
  then show "slice_len (LinkDescriptorTLV.Value t) = ?L"
    by (simp only: tlv_step_wire(4) [OF assms] slice_len_def bytes_def slice.simps)
  show "spare (LinkDescriptorTLV.Value t) = []"
    by (simp only: tlv_step_wire(4) [OF assms] bytes_def slice.simps)
qed

lemma tlv_loop_values:
  assumes "tlv_loop b p acc = Ok ts"
    "\<forall>t\<in>set acc. slice_len (LinkDescriptorTLV.Value t) = unat (LinkDescriptorTLV.Length t)
       \<and> spare (LinkDescriptorTLV.Value t) = []"
  shows "\<forall>t\<in>set ts. slice_len (LinkDescriptorTLV.Value t) = unat (LinkDescriptorTLV.Length t)
       \<and> spare (LinkDescriptorTLV.Value t) = []"
  using assms
proof (induction b p acc rule: tlv_loop.induct)
  case (1 b p ltlvs)
  show ?case
  proof (cases "p < slice_len b")
    case False
    with "1.prems" show ?thesis by simp
  next
    case True
    with "1.prems" obtain t p' where st: "tlv_step b p = Ok (t, p')"
      and rec: "tlv_loop b p' (ltlvs @ [t]) = Ok ts"
      by (auto split: result.splits)
    from "1.IH" [OF True st refl rec] "1.prems"(2) tlv_step_value [OF st]
    show ?thesis by simp
  qed
qed

lemma tlv_loop_never_err: "tlv_loop b p acc \<noteq> Err e"
proof (induction b p acc rule: tlv_loop.induct)
  case (1 b p ltlvs)
  show ?case
  proof (cases "p < slice_len b")
    case False
    then show ?thesis by simp
  next
    case True
    show ?thesis
    proof (cases "tlv_step b p")
      case (Panic x)
      with True show ?thesis by simp
    next
      case (Err x)
      then show ?thesis
        by (auto simp: tlv_step_def rbind_def slice_expr_def Uint16_def
            split: result.splits if_splits)
    next
      case (Ok r)
      obtain t p' where "r = (t, p')" by (cases r)
      with Ok True 1 show ?thesis by simp
    qed
  qed
qed


subsection \<open>What a successful walk returns\<close>

text \<open>
  A walk that succeeds has read some \<open>q\<close> bytes of the backing array, at least the
  length of the input and at most its capacity: the TLVs returned are, in order, the wire
  TLVs of these \<open>q\<close> bytes, each value a fresh slice of exactly \<open>Length\<close> bytes, and the
  sum of \<open>4 + Length\<close> over them is \<open>q\<close>.
\<close>

lemma walk_reads_prefix_of_backing:
  assumes "UnmarshalLinkDescriptorTLV b = Ok ts"
  shows "\<exists>q. slice_len b \<le> q \<and> q \<le> slice_cap b \<and>
     concat (map wire ts) = take q (backing b) \<and> consumed ts = q \<and>
     (\<forall>t\<in>set ts. slice_len (LinkDescriptorTLV.Value t) = unat (LinkDescriptorTLV.Length t)
        \<and> spare (LinkDescriptorTLV.Value t) = [])"
proof -
  from tlv_loop_wire [of b 0 "[]" ts] assms obtain q where q:
    "slice_len b \<le> q" "q \<le> slice_cap b" "concat (map wire ts) = take q (backing b)"
    by (auto simp: UnmarshalLinkDescriptorTLV_def)
  have v: "\<forall>t\<in>set ts. slice_len (LinkDescriptorTLV.Value t) = unat (LinkDescriptorTLV.Length t)
        \<and> spare (LinkDescriptorTLV.Value t) = []"
    using tlv_loop_values [of b 0 "[]" ts] assms by (simp add: UnmarshalLinkDescriptorTLV_def)
  have "length (concat (map wire ts)) = consumed ts"
    unfolding consumed_def using v by (induction ts) (simp_all add: wire_length)
  moreover have "length (take q (backing b)) = q"
    using q(2) by (simp add: slice_cap_def backing_def)
  ultimately have "consumed ts = q" using q(3) by simp
  with q v show ?thesis by (intro exI [of _ q]) simp
qed

text \<open>On a slice with no capacity beyond its length, a walk that succeeds has consumed
  exactly the input: the returned TLVs are the wire TLVs of the input, every type kept.\<close>

lemma walk_exhausts_input_without_spare:
  assumes "UnmarshalLinkDescriptorTLV b = Ok ts" "spare b = []"
  shows "concat (map wire ts) = elems b \<and> consumed ts = slice_len b \<and>
     (\<forall>t\<in>set ts. slice_len (LinkDescriptorTLV.Value t) = unat (LinkDescriptorTLV.Length t))"
proof -
  from walk_reads_prefix_of_backing [OF assms(1)] obtain q where q:
    "slice_len b \<le> q" "q \<le> slice_cap b"
    "concat (map wire ts) = take q (backing b)" "consumed ts = q"
    "\<forall>t\<in>set ts. slice_len (LinkDescriptorTLV.Value t) = unat (LinkDescriptorTLV.Length t)
        \<and> spare (LinkDescriptorTLV.Value t) = []"
    by blast
  from q(1,2) assms(2) have "q = slice_len b" by (simp add: slice_cap_def slice_len_def)
  with q assms(2) show ?thesis by (simp add: backing_def slice_len_def)
qed

lemma walk_exhausts_input_example:
  "concat (map wire [\<lparr>LinkDescriptorTLV.Type = 258, Length = 3, Value = bytes [1, 2, 3]\<rparr>,
                     \<lparr>LinkDescriptorTLV.Type = 65535, Length = 0, Value = bytes []\<rparr>])
     = [1, 2, 0, 3, 1, 2, 3, 255, 255, 0, 0]
   \<and> consumed [\<lparr>LinkDescriptorTLV.Type = 258, Length = 3, Value = bytes [1, 2, 3]\<rparr>,
               \<lparr>LinkDescriptorTLV.Type = 65535, Length = 0, Value = bytes []\<rparr>] = 11"
proof -
  have run: "UnmarshalLinkDescriptorTLV (bytes [1, 2, 0, 3, 1, 2, 3, 255, 255, 0, 0]) =
      Ok [\<lparr>LinkDescriptorTLV.Type = 258, Length = 3, Value = bytes [1, 2, 3]\<rparr>,
          \<lparr>LinkDescriptorTLV.Type = 65535, Length = 0, Value = bytes []\<rparr>]"
    by code_simp
  have sp: "spare (bytes [1, 2, 0, 3, 1, 2, 3, 255, 255, 0, 0]) = []"
    by (simp add: bytes_def)
  show ?thesis
    using walk_exhausts_input_without_spare [OF run sp] by (simp add: bytes_def slice_len_def)
qed

text \<open>The walker has no error return: a walk ends in a value or in a run-time panic.\<close>

lemma walk_never_returns_error: "UnmarshalLinkDescriptorTLV b \<noteq> Err e"
  unfolding UnmarshalLinkDescriptorTLV_def by (rule tlv_loop_never_err)

text \<open>
  Claim C1: on every input on which it succeeds, the TLV walker consumes exactly its input
  length, the sum of \<open>4 + Length\<close> over the returned TLVs being the input byte length.
  The code does not keep this on a slice that has capacity beyond its length. For the
  three-byte input \<open>01 02 00\<close> that is the front of a five-byte array \<open>01 02 00 01 AA\<close>
  (\<open>buf[:3]\<close>), the walk succeeds: the slice expressions for the length field and the value
  are checked against the capacity, so the walker reads the two bytes after the input and
  returns one TLV of type 258 and length 1 with value \<open>AA\<close>. The sum of \<open>4 + Length\<close> is 5, the
  input length 3.
\<close>

theorem walk_overreads_into_spare_capacity:
  "UnmarshalLinkDescriptorTLV \<lparr>elems = [1, 2, 0], spare = [1, 170]\<rparr> =
     Ok [\<lparr>LinkDescriptorTLV.Type = 258, Length = 1, Value = bytes [170]\<rparr>]
   \<and> consumed [\<lparr>LinkDescriptorTLV.Type = 258, Length = 1, Value = bytes [170]\<rparr>] = 5
   \<and> slice_len \<lparr>elems = [1, 2, 0], spare = [1, 170]\<rparr> = 3"
proof -
  have "UnmarshalLinkDescriptorTLV \<lparr>elems = [1, 2, 0], spare = [1, 170]\<rparr> =
     Ok [\<lparr>LinkDescriptorTLV.Type = 258, Length = 1, Value = bytes [170]\<rparr>]"
    by code_simp
  then show ?thesis by (simp add: consumed_def slice_len_def)
qed

text \<open>
  Claim C2: when fewer than 4 bytes remain for a TLV header, or a TLV's declared length
  exceeds the remaining buffer, the walk fails with a decode error rather than succeeding
  or crashing. The code has no such check. On the three bytes \<open>01 02 00\<close> (a truncated
  header) and on \<open>01 02 00 03 01 02\<close> (length 3 declared, 2 bytes left), both slices
  without spare capacity, the slice expression is out of range and the walk panics.
\<close>

theorem walk_panics_on_truncated_input:
  "UnmarshalLinkDescriptorTLV (bytes [1, 2, 0]) = Panic SliceBoundsOutOfRange
   \<and> UnmarshalLinkDescriptorTLV (bytes [1, 2, 0, 3, 1, 2]) = Panic SliceBoundsOutOfRange"
  by code_simp


section \<open>The MAC/IP Advertisement parser\<close>

lemma copy_into_nil: "copy_bytes nil_slice s = nil_slice"
  by (simp add: copy_bytes_def nil_slice_def slice_len_def)

lemma rbind_OkE:
  assumes "rbind r f = Ok v"
  obtains x where "r = Ok x" "f x = Ok v"
  using assms by (cases r) (simp_all add: rbind_def)

text \<open>
  Claim C3: for every well-formed MAC/IP Advertisement body the returned route carries the
  RD, ESI, Ethernet Tag (the 4 bytes following the 10-byte ESI), MAC address, IP address
  and labels encoded in the input. The code copies the Ethernet Tag into \<open>t.EthTag\<close>, which
  is still the nil slice of the zero-valued struct: \<open>copy\<close> moves no byte, and whatever
  the primitives are, every route returned has an empty Ethernet Tag. (The IP address,
  by contrast, is copied into a slice made for it.)
\<close>

theorem EthTag_stays_nil:
  assumes "UnmarshalEVPNMACIPAdvertisement prim b = Ok t"
  shows "EthTag t = nil_slice"
  using assms unfolding UnmarshalEVPNMACIPAdvertisement_def Let_def copy_into_nil
  apply (elim rbind_OkE)
  apply (simp split: prod.splits)
  apply (elim rbind_OkE)
  apply (simp split: prod.splits)
  apply (elim rbind_OkE)
  apply auto
  done

theorem EthTag_stays_nil_witness:
  "UnmarshalEVPNMACIPAdvertisement spec_primitives (bytes example_macip_body) =
     Ok \<lparr>RD = Some (0, [0, 100, 0, 0, 0, 1]), ESI = Some (0, [0, 0, 0, 0, 0, 0, 0, 0, 0]),
         EthTag = nil_slice, MACAddrLength = 48,
         MACAddr = Some [170, 187, 204, 221, 238, 255], IPAddrLength = 32,
         IPAddr = bytes [10, 0, 0, 5], Label = [(10, 0, True)]\<rparr>
   \<and> EthTag \<lparr>RD = Some (0 :: uint16, [0, 100, 0, 0, 0, 1 :: byte]),
         ESI = Some (0 :: byte, [0, 0, 0, 0, 0, 0, 0, 0, 0 :: byte]),
         EthTag = nil_slice, MACAddrLength = 48,
         MACAddr = Some [170, 187, 204, 221, 238, 255 :: byte], IPAddrLength = 32,
         IPAddr = bytes [10, 0, 0, 5], Label = [(10 :: nat, 0 :: nat, True)]\<rparr> = nil_slice
   \<and> take 4 (drop 18 example_macip_body) = [0, 0, 0, 5]"
proof -
  have run: "UnmarshalEVPNMACIPAdvertisement spec_primitives (bytes example_macip_body) =
     Ok \<lparr>RD = Some (0, [0, 100, 0, 0, 0, 1]), ESI = Some (0, [0, 0, 0, 0, 0, 0, 0, 0, 0]),
         EthTag = nil_slice, MACAddrLength = 48,
         MACAddr = Some [170, 187, 204, 221, 238, 255], IPAddrLength = 32,
         IPAddr = bytes [10, 0, 0, 5], Label = [(10, 0, True)]\<rparr>"
    by code_simp
  have tag: "take 4 (drop 18 example_macip_body) = [0, 0, 0, 5]"
    by (simp add: example_macip_body_def)
  from run EthTag_stays_nil [OF run] tag show ?thesis by (intro conjI)
qed

text \<open>
  Claim C8: the parser is total over arbitrary byte inputs: on a body shorter than the
  fields it declares it returns an error, and no out-of-bounds access is reachable. The
  code checks no length. Whatever the primitives are, a body whose slice has capacity
  below 8 (the empty body for one) panics at the very first slice expression \<open>b[0:8]\<close>.
\<close>

theorem short_body_panics:
  assumes "slice_cap b < 8"
  shows "UnmarshalEVPNMACIPAdvertisement prim b = Panic SliceBoundsOutOfRange"
  using assms by (simp add: UnmarshalEVPNMACIPAdvertisement_def rbind_def slice_expr_def)

theorem short_body_panics_witness:
  "slice_cap (bytes []) < 8 \<and>
   UnmarshalEVPNMACIPAdvertisement spec_primitives (bytes []) = Panic SliceBoundsOutOfRange"
proof -
  have h: "slice_cap (bytes []) < 8" by (simp add: slice_cap_def bytes_def)
  from short_body_panics [OF h, of spec_primitives] h show ?thesis by simp
qed

text \<open>Later reads panic too: a body that ends after the Ethernet Tag fails at the index
  expression for the MAC length, one that ends inside the MAC or the IP address at the slice
  expression for it.\<close>

lemma truncated_bodies_panic:
  "UnmarshalEVPNMACIPAdvertisement spec_primitives (bytes (take 22 example_macip_body))
     = Panic IndexOutOfRange"
  "UnmarshalEVPNMACIPAdvertisement spec_primitives (bytes (take 25 example_macip_body))
     = Panic SliceBoundsOutOfRange"
  "UnmarshalEVPNMACIPAdvertisement spec_primitives (bytes (take 29 example_macip_body))
     = Panic IndexOutOfRange"
  "UnmarshalEVPNMACIPAdvertisement spec_primitives (bytes (take 32 example_macip_body))
     = Panic SliceBoundsOutOfRange"
  by code_simp+

section \<open>Node flags\<close>

lemma node_flags_loop_skip:
  "\<forall>u\<in>set pre. TLV.Type u \<noteq> 1024 \<Longrightarrow> node_flags_loop (pre @ rest) = node_flags_loop rest"
  by (induction pre) simp_all

text \<open>
  Claim C9: \<open>GetNodeFlags\<close> returns 0 when the TLV list holds no TLV of type 1024; when it
  holds one or more, it returns the first byte of the value of the first of them, provided
  that value is not empty. The TLVs after it, and the TLVs of other types, do not matter.
\<close>

theorem GetNodeFlags_first_1024:
  "((\<forall>u\<in>set (LS ls). TLV.Type u \<noteq> 1024) \<longrightarrow> GetNodeFlags ls = Ok 0) \<and>
   (LS ls = pre @ tlv # post \<and> (\<forall>u\<in>set pre. TLV.Type u \<noteq> 1024) \<and> TLV.Type tlv = 1024
      \<and> elems (TLV.Value tlv) \<noteq> [] \<longrightarrow> GetNodeFlags ls = Ok (hd (elems (TLV.Value tlv))))"
proof (intro conjI impI)
  assume "\<forall>u\<in>set (LS ls). TLV.Type u \<noteq> 1024"
  then have "node_flags_loop (LS ls @ []) = node_flags_loop []"
    by (rule node_flags_loop_skip)
  then show "GetNodeFlags ls = Ok 0" by (simp add: GetNodeFlags_def)
next
  assume a: "LS ls = pre @ tlv # post \<and> (\<forall>u\<in>set pre. TLV.Type u \<noteq> 1024)
      \<and> TLV.Type tlv = 1024 \<and> elems (TLV.Value tlv) \<noteq> []"
  then have "node_flags_loop (LS ls) = node_flags_loop (tlv # post)"
    by (simp add: node_flags_loop_skip)
  with a show "GetNodeFlags ls = Ok (hd (elems (TLV.Value tlv)))"
    by (simp add: GetNodeFlags_def index_expr_def slice_len_def hd_conv_nth)
qed

theorem GetNodeFlags_first_1024_witness:
  "GetNodeFlags \<lparr>LS = [\<lparr>TLV.Type = 1026, Length = 1, Value = bytes [66]\<rparr>]\<rparr> = Ok 0
   \<and> GetNodeFlags \<lparr>LS = [\<lparr>TLV.Type = 1026, Length = 1, Value = bytes [66]\<rparr>,
                         \<lparr>TLV.Type = 1024, Length = 1, Value = bytes [7]\<rparr>,
                         \<lparr>TLV.Type = 1024, Length = 1, Value = bytes [9]\<rparr>]\<rparr> = Ok 7"
proof -
  let ?o = "\<lparr>TLV.Type = 1026, Length = 1, Value = bytes [66]\<rparr>"
  let ?f = "\<lparr>TLV.Type = 1024, Length = 1, Value = bytes [7]\<rparr>"
  let ?g = "\<lparr>TLV.Type = 1024, Length = 1, Value = bytes [9]\<rparr>"
  have "\<forall>u\<in>set (LS \<lparr>LS = [?o]\<rparr>). TLV.Type u \<noteq> 1024" by simp
  with GetNodeFlags_first_1024 [of "\<lparr>LS = [?o]\<rparr>"]
  have 1: "GetNodeFlags \<lparr>LS = [?o]\<rparr> = Ok 0" by blast
  have "LS \<lparr>LS = [?o, ?f, ?g]\<rparr> = [?o] @ ?f # [?g] \<and> (\<forall>u\<in>set [?o]. TLV.Type u \<noteq> 1024)
      \<and> TLV.Type ?f = 1024 \<and> elems (TLV.Value ?f) \<noteq> []"
    by (simp add: bytes_def)
  with GetNodeFlags_first_1024 [of "\<lparr>LS = [?o, ?f, ?g]\<rparr>" "[?o]" ?f "[?g]"]
  have "GetNodeFlags \<lparr>LS = [?o, ?f, ?g]\<rparr> = Ok (hd (elems (TLV.Value ?f)))" by blast
  then have 2: "GetNodeFlags \<lparr>LS = [?o, ?f, ?g]\<rparr> = Ok 7" by (simp add: bytes_def)
  from 1 2 show ?thesis by (rule conjI)
qed

text \<open>Where the first TLV of type 1024 has an empty value, the index expression panics.\<close>

lemma GetNodeFlags_empty_value_panics:
  assumes "LS ls = pre @ tlv # post" "\<forall>u\<in>set pre. TLV.Type u \<noteq> 1024"
    "TLV.Type tlv = 1024" "elems (TLV.Value tlv) = []"
  shows "GetNodeFlags ls = Panic IndexOutOfRange"
  using assms by (simp add: GetNodeFlags_def node_flags_loop_skip index_expr_def slice_len_def)


section \<open>The publisher\<close>

lemma distinct8:
  assumes "distinct [a, b, c, d, e, f, g, h]"
  shows "a \<noteq> b \<and> a \<noteq> c \<and> a \<noteq> d \<and> a \<noteq> e \<and> a \<noteq> f \<and> a \<noteq> g \<and> a \<noteq> h
     \<and> b \<noteq> a \<and> b \<noteq> c \<and> b \<noteq> d \<and> b \<noteq> e \<and> b \<noteq> f \<and> b \<noteq> g \<and> b \<noteq> h
     \<and> c \<noteq> a \<and> c \<noteq> b \<and> c \<noteq> d \<and> c \<noteq> e \<and> c \<noteq> f \<and> c \<noteq> g \<and> c \<noteq> h
     \<and> d \<noteq> a \<and> d \<noteq> b \<and> d \<noteq> c \<and> d \<noteq> e \<and> d \<noteq> f \<and> d \<noteq> g \<and> d \<noteq> h
     \<and> e \<noteq> a \<and> e \<noteq> b \<and> e \<noteq> c \<and> e \<noteq> d \<and> e \<noteq> f \<and> e \<noteq> g \<and> e \<noteq> h
     \<and> f \<noteq> a \<and> f \<noteq> b \<and> f \<noteq> c \<and> f \<noteq> d \<and> f \<noteq> e \<and> f \<noteq> g \<and> f \<noteq> h
     \<and> g \<noteq> a \<and> g \<noteq> b \<and> g \<noteq> c \<and> g \<noteq> d \<and> g \<noteq> e \<and> g \<noteq> f \<and> g \<noteq> h
     \<and> h \<noteq> a \<and> h \<noteq> b \<and> h \<noteq> c \<and> h \<noteq> d \<and> h \<noteq> e \<and> h \<noteq> f \<and> h \<noteq> g"
  using assms by auto

lemma produceMessage_appends:
  "produceMessage p topic key msg =
     (None, p\<lparr>producer := producer p @
        [\<lparr>Topic = topic, Key = key, ProducerMessage.Value = msg\<rparr>]\<rparr>)"
  by (simp add: produceMessage_def)

lemma topic_names_prefixed:
  "peerTopic = ''gobmp.'' @ ''parsed.peer''"
  "unicastMessageTopic = ''gobmp.'' @ ''parsed.unicast_prefix''"
  "lsNodeMessageTopic = ''gobmp.'' @ ''parsed.ls_node''"
  "lsLinkMessageTopic = ''gobmp.'' @ ''parsed.ls_link''"
  "lsPrefixMessageTopic = ''gobmp.'' @ ''parsed.ls_prefix''"
  "lsSRv6SIDMessageTopic = ''gobmp.'' @ ''parsed.ls_srv6_sid''"
  "l3vpnMessageTopic = ''gobmp.'' @ ''parsed.l3vpn''"
  "evpnMessageTopic = ''gobmp.'' @ ''parsed.evpn''"
  by (simp_all add: peerTopic_def unicastMessageTopic_def lsNodeMessageTopic_def
      lsLinkMessageTopic_def l3vpnMessageTopic_def lsPrefixMessageTopic_def
      lsSRv6SIDMessageTopic_def evpnMessageTopic_def)

text \<open>Each case of the \<open>switch\<close>, the case labels being distinct.\<close>

lemma PublishMessage_dispatch:
  assumes "distinct (known_types c)"
  shows "PublishMessage c p (PeerStateChangeMsg c) key msg = produceMessage p peerTopic key msg"
    "PublishMessage c p (UnicastPrefixMsg c) key msg = produceMessage p unicastMessageTopic key msg"
    "PublishMessage c p (LSNodeMsg c) key msg = produceMessage p lsNodeMessageTopic key msg"
    "PublishMessage c p (LSLinkMsg c) key msg = produceMessage p lsLinkMessageTopic key msg"
    "PublishMessage c p (L3VPNMsg c) key msg = produceMessage p l3vpnMessageTopic key msg"
    "PublishMessage c p (LSPrefixMsg c) key msg = produceMessage p lsPrefixMessageTopic key msg"
    "PublishMessage c p (LSSRv6SIDMsg c) key msg = produceMessage p lsSRv6SIDMessageTopic key msg"
    "PublishMessage c p (EVPNMsg c) key msg = produceMessage p evpnMessageTopic key msg"
proof -
  note ne = distinct8 [OF assms [unfolded known_types_def]]
  show "PublishMessage c p (PeerStateChangeMsg c) key msg = produceMessage p peerTopic key msg"
    by (simp add: PublishMessage_def)
  show "PublishMessage c p (UnicastPrefixMsg c) key msg = produceMessage p unicastMessageTopic key msg"
    using ne by (simp add: PublishMessage_def)
  show "PublishMessage c p (LSNodeMsg c) key msg = produceMessage p lsNodeMessageTopic key msg"
    using ne by (simp add: PublishMessage_def)
  show "PublishMessage c p (LSLinkMsg c) key msg = produceMessage p lsLinkMessageTopic key msg"
    using ne by (simp add: PublishMessage_def)
  show "PublishMessage c p (L3VPNMsg c) key msg = produceMessage p l3vpnMessageTopic key msg"
    using ne by (simp add: PublishMessage_def)
  show "PublishMessage c p (LSPrefixMsg c) key msg = produceMessage p lsPrefixMessageTopic key msg"
    using ne by (simp add: PublishMessage_def)
  show "PublishMessage c p (LSSRv6SIDMsg c) key msg = produceMessage p lsSRv6SIDMessageTopic key msg"
    using ne by (simp add: PublishMessage_def)
  show "PublishMessage c p (EVPNMsg c) key msg = produceMessage p evpnMessageTopic key msg"
    using ne by (simp add: PublishMessage_def)
qed

lemma example_types_distinct: "distinct (known_types example_types)"
  by (simp add: known_types_def example_types_def)

text \<open>
  Claim C4: for every record kind, \<open>PublishMessage\<close> delivers the record to exactly the
  topic name listed in the spec (\<open>parsed.peer\<close>, \<open>parsed.unicast_prefix\<close>, ...), with no
  prefix or suffix added. The topic constants of the code carry the prefix \<open>gobmp.\<close>: a
  peer state change goes to \<open>gobmp.parsed.peer\<close>, not to \<open>parsed.peer\<close>.
\<close>

theorem PublishMessage_peer_topic_not_bare:
  "map Topic (producer (snd (PublishMessage example_types new_publisher
       (PeerStateChangeMsg example_types) (bytes [1]) (bytes [2])))) = [''gobmp.parsed.peer'']
   \<and> ''gobmp.parsed.peer'' \<noteq> ''parsed.peer''"
  by (simp add: PublishMessage_def produceMessage_def peerTopic_def new_publisher_def)

text \<open>
  Claim C4, amended: for every record kind, \<open>PublishMessage\<close> hands the producer one
  message with the given key and body whose topic is the listed name behind the fixed
  prefix \<open>gobmp.\<close>, and returns nil.
\<close>

theorem PublishMessage_topic:
  assumes "distinct (known_types c)"
  shows "PublishMessage c p (PeerStateChangeMsg c) key msg =
       (None, p\<lparr>producer := producer p @
          [\<lparr>Topic = ''gobmp.'' @ ''parsed.peer'', Key = key, ProducerMessage.Value = msg\<rparr>]\<rparr>)
   \<and> PublishMessage c p (UnicastPrefixMsg c) key msg =
       (None, p\<lparr>producer := producer p @
          [\<lparr>Topic = ''gobmp.'' @ ''parsed.unicast_prefix'', Key = key, ProducerMessage.Value = msg\<rparr>]\<rparr>)
   \<and> PublishMessage c p (LSNodeMsg c) key msg =
       (None, p\<lparr>producer := producer p @
          [\<lparr>Topic = ''gobmp.'' @ ''parsed.ls_node'', Key = key, ProducerMessage.Value = msg\<rparr>]\<rparr>)
   \<and> PublishMessage c p (LSLinkMsg c) key msg =
       (None, p\<lparr>producer := producer p @
          [\<lparr>Topic = ''gobmp.'' @ ''parsed.ls_link'', Key = key, ProducerMessage.Value = msg\<rparr>]\<rparr>)
   \<and> PublishMessage c p (LSPrefixMsg c) key msg =
       (None, p\<lparr>producer := producer p @
          [\<lparr>Topic = ''gobmp.'' @ ''parsed.ls_prefix'', Key = key, ProducerMessage.Value = msg\<rparr>]\<rparr>)
   \<and> PublishMessage c p (LSSRv6SIDMsg c) key msg =
       (None, p\<lparr>producer := producer p @
          [\<lparr>Topic = ''gobmp.'' @ ''parsed.ls_srv6_sid'', Key = key, ProducerMessage.Value = msg\<rparr>]\<rparr>)
   \<and> PublishMessage c p (L3VPNMsg c) key msg =
       (None, p\<lparr>producer := producer p @
          [\<lparr>Topic = ''gobmp.'' @ ''parsed.l3vpn'', Key = key, ProducerMessage.Value = msg\<rparr>]\<rparr>)
   \<and> PublishMessage c p (EVPNMsg c) key msg =
       (None, p\<lparr>producer := producer p @
          [\<lparr>Topic = ''gobmp.'' @ ''parsed.evpn'', Key = key, ProducerMessage.Value = msg\<rparr>]\<rparr>)"
  by (simp only: PublishMessage_dispatch [OF assms] produceMessage_appends
      topic_names_prefixed simp_thms)

theorem PublishMessage_topic_witness:
  "PublishMessage example_types new_publisher 1 (bytes [1]) (bytes [2]) =
       (None, new_publisher\<lparr>producer :=
          [\<lparr>Topic = ''gobmp.parsed.peer'', Key = bytes [1], ProducerMessage.Value = bytes [2]\<rparr>]\<rparr>)
   \<and> PublishMessage example_types new_publisher 2 (bytes [1]) (bytes [2]) =
       (None, new_publisher\<lparr>producer :=
          [\<lparr>Topic = ''gobmp.parsed.unicast_prefix'', Key = bytes [1], ProducerMessage.Value = bytes [2]\<rparr>]\<rparr>)
   \<and> PublishMessage example_types new_publisher 3 (bytes [1]) (bytes [2]) =
       (None, new_publisher\<lparr>producer :=
          [\<lparr>Topic = ''gobmp.parsed.ls_node'', Key = bytes [1], ProducerMessage.Value = bytes [2]\<rparr>]\<rparr>)
   \<and> PublishMessage example_types new_publisher 4 (bytes [1]) (bytes [2]) =
       (None, new_publisher\<lparr>producer :=
          [\<lparr>Topic = ''gobmp.parsed.ls_link'', Key = bytes [1], ProducerMessage.Value = bytes [2]\<rparr>]\<rparr>)
   \<and> PublishMessage example_types new_publisher 6 (bytes [1]) (bytes [2]) =
       (None, new_publisher\<lparr>producer :=
          [\<lparr>Topic = ''gobmp.parsed.ls_prefix'', Key = bytes [1], ProducerMessage.Value = bytes [2]\<rparr>]\<rparr>)
   \<and> PublishMessage example_types new_publisher 7 (bytes [1]) (bytes [2]) =
       (None, new_publisher\<lparr>producer :=
          [\<lparr>Topic = ''gobmp.parsed.ls_srv6_sid'', Key = bytes [1], ProducerMessage.Value = bytes [2]\<rparr>]\<rparr>)
   \<and> PublishMessage example_types new_publisher 5 (bytes [1]) (bytes [2]) =
       (None, new_publisher\<lparr>producer :=
          [\<lparr>Topic = ''gobmp.parsed.l3vpn'', Key = bytes [1], ProducerMessage.Value = bytes [2]\<rparr>]\<rparr>)
   \<and> PublishMessage example_types new_publisher 8 (bytes [1]) (bytes [2]) =
       (None, new_publisher\<lparr>producer :=
          [\<lparr>Topic = ''gobmp.parsed.evpn'', Key = bytes [1], ProducerMessage.Value = bytes [2]\<rparr>]\<rparr>)"
  using PublishMessage_topic [OF example_types_distinct, of new_publisher "bytes [1]" "bytes [2]"]
  by (simp add: example_types_def new_publisher_def)

text \<open>
  Claim C10: \<open>PublishMessage\<close> returns an error exactly when the message type is none of
  the eight known kinds; for a known kind it returns nil whatever the key and the body
  are, which it never inspects.
\<close>

theorem PublishMessage_error_iff:
  "(fst (PublishMessage c p t key msg) \<noteq> None) = (t \<notin> set (known_types c))
   \<and> fst (PublishMessage c p t key msg) = fst (PublishMessage c p' t key' msg')"
  by (simp add: known_types_def PublishMessage_def produceMessage_def)

theorem PublishMessage_error_iff_witness:
  "fst (PublishMessage example_types new_publisher 9 (bytes [1]) (bytes [2])) \<noteq> None
   \<and> fst (PublishMessage example_types new_publisher 5 (bytes [1]) (bytes [2])) = None
   \<and> fst (PublishMessage example_types new_publisher 5 (bytes []) nil_slice) = None"
proof -
  have 9: "(9::int) \<notin> set (known_types example_types)"
    and 5: "\<not> (5::int) \<notin> set (known_types example_types)"
    by (simp_all add: known_types_def example_types_def)
  from 9 PublishMessage_error_iff [of example_types new_publisher 9 "bytes [1]" "bytes [2]"]
  have a: "fst (PublishMessage example_types new_publisher 9 (bytes [1]) (bytes [2])) \<noteq> None"
    by blast
  from 5 PublishMessage_error_iff [of example_types new_publisher 5 "bytes [1]" "bytes [2]"
      new_publisher "bytes []" nil_slice]
  have b: "fst (PublishMessage example_types new_publisher 5 (bytes [1]) (bytes [2])) = None"
    and c: "fst (PublishMessage example_types new_publisher 5 (bytes []) nil_slice) = None"
    by auto
  from a b c show ?thesis by blast
qed

text \<open>
  Claim C6: \<open>Stop\<close> is idempotent: a second call, after a first has completed, has no
  further effect and does not fail. The code closes the stop channel with no guard, and
  closing a closed channel panics: the second of two calls on a new publisher panics.
\<close>

theorem Stop_twice_panics: "rbind (Stop new_publisher) Stop = Panic CloseOfClosedChannel"
  by (simp add: Stop_def new_publisher_def rbind_def)

text \<open>
  Claim C6, amended: on a publisher whose stop channel is open, \<open>Stop\<close> completes: it
  closes the stop channel and the broker connection and changes nothing else. It is not
  idempotent: a call on the publisher so left panics on the closed channel.
\<close>

theorem Stop_once:
  assumes "stopCh p = ChanOpen"
  shows "Stop p = Ok (p\<lparr>stopCh := ChanClosed, broker := ConnClosed\<rparr>)
     \<and> Stop (p\<lparr>stopCh := ChanClosed, broker := ConnClosed\<rparr>) = Panic CloseOfClosedChannel"
  using assms by (simp add: Stop_def)

theorem Stop_once_witness:
  "stopCh new_publisher = ChanOpen
   \<and> Stop new_publisher = Ok \<lparr>broker = ConnClosed, producer = [], stopCh = ChanClosed\<rparr>
   \<and> Stop \<lparr>broker = ConnClosed, producer = [], stopCh = ChanClosed\<rparr>
       = Panic CloseOfClosedChannel"
proof -
  have h: "stopCh new_publisher = ChanOpen" by (simp add: new_publisher_def)
  from Stop_once [OF h] h show ?thesis by (simp add: new_publisher_def)
qed


section \<open>Address validation\<close>

text \<open>What \<open>validator\<close> accepts, in terms of what the library functions return.\<close>

lemma validator_accepts_iff:
  "validator env addr = None \<longleftrightarrow>
     (case SplitHostPort env addr of (host, port, _) \<Rightarrow>
        host \<noteq> [] \<and> port \<noteq> [] \<and>
        ((snd (LookupIP env host) = None \<and> fst (LookupIP env host) \<noteq> None) \<or> ParseIP env host \<noteq> None) \<and>
        snd (Atoi env port) = None \<and> fst (Atoi env port) \<noteq> 0 \<and> fst (Atoi env port) \<le> 65535)"
  by (auto simp: validator_def split: prod.splits option.splits)

text \<open>
  Claim C5: the validator accepts an address exactly when the host part is non-empty and
  resolvable or a literal IP, and the port part is an integer in 1..65535; every port
  outside 1..65535, zero and negative ports included, is rejected. The code rejects a port
  that is zero or above 65535 and has no test for a negative one: an address whose host
  resolves or parses as an IP and whose port is a negative integer is accepted.
  \<open>127.0.0.1:-1\<close> is one.
\<close>

theorem validator_accepts_negative_port:
  assumes "SplitHostPort env addr = (host, port, serr)" "host \<noteq> []" "port \<noteq> []"
    "LookupIP env host = (Some ips, None) \<or> ParseIP env host \<noteq> None"
    "Atoi env port = (np, None)" "np < 0"
  shows "validator env addr = None"
  using assms by (auto simp: validator_def)

theorem validator_accepts_negative_port_witness:
  "validator example_net ''127.0.0.1:-1'' = None"
proof -
  have 1: "SplitHostPort example_net ''127.0.0.1:-1'' = (''127.0.0.1'', ''-1'', None)"
    by code_simp
  have "ParseIP example_net ''127.0.0.1'' \<noteq> None" by code_simp
  then have 2: "LookupIP example_net ''127.0.0.1'' = (Some [[127, 0, 0, 1]], None)
      \<or> ParseIP example_net ''127.0.0.1'' \<noteq> None" by (rule disjI2)
  have 3: "Atoi example_net ''-1'' = (-1, None)" by code_simp
  show ?thesis by (rule validator_accepts_negative_port [OF 1 _ _ 2 3]) simp_all
qed

text \<open>Port zero and the ports above 65535 are rejected, as the claim says.\<close>

lemma validator_rejects_zero_and_large_ports:
  assumes "SplitHostPort env addr = (host, port, serr)" "host \<noteq> []" "port \<noteq> []"
    "LookupIP env host = (Some ips, None) \<or> ParseIP env host \<noteq> None"
    "Atoi env port = (np, None)" "np = 0 \<or> np > 65535"
  shows "validator env addr = Some (Errorf ''the value of port is invalid'')"
  using assms by (auto simp: validator_def)

section \<open>Topic provisioning\<close>

lemma loop_success:
  assumes "t topicName = Some ErrTopicAlreadyExists \<or> t topicName = Some ErrNoError"
  shows "ensureTopic_loop (Inr t # br) evs topicName = Some (None, br)"
  using assms by auto

lemma loop_other_error:
  assumes "t topicName = Some e" "e \<noteq> ErrTopicAlreadyExists" "e \<noteq> ErrNoError" "e \<noteq> ErrRequestTimedOut"
  shows "ensureTopic_loop (Inr t # br) evs topicName = Some (Some (TopicError e), br)"
  using assms by simp

lemma loop_retry:
  assumes "timed_out topicName r"
  shows "ensureTopic_loop (r # br) (Tick # evs) topicName = ensureTopic_loop br evs topicName"
    "ensureTopic_loop (r # br) (Timeout # evs) topicName =
       Some (Some (Errorf (''timeout waiting for topic '' @ topicName)), br)"
  using assms by (auto simp: timed_out_def split: sum.splits)

lemma loop_retries:
  assumes "list_all (timed_out topicName) rs"
  shows "ensureTopic_loop (rs @ br) (replicate (length rs) Tick @ evs) topicName =
     ensureTopic_loop br evs topicName"
  using assms
proof (induction rs)
  case Nil
  show ?case by simp
next
  case (Cons r rs)
  then have "timed_out topicName r" and "list_all (timed_out topicName) rs" by simp_all
  with Cons.IH show ?case by (simp only: append_Cons length_Cons replicate_Suc loop_retry(1))
qed

text \<open>
  Claim C7: during topic provisioning, for each topic, a topic-already-exists (or
  no-error) response counts as success; a request-timeout response is retried on the
  100 ms tick until the configured deadline, after which provisioning fails with a timeout
  error; any other topic error aborts startup at once, with no further request.
  In the four parts below: the first reply settles a success; another topic error is
  returned after that one request, and ends the loop over the topics; after request-timeout
  replies, each followed by a tick of the ticker of period 100, the loop goes on with the
  next reply; and when the timer of the given duration fires after a request-timeout reply,
  the timeout error is returned.
\<close>

theorem ensureTopic_outcomes:
  "(t topicName = Some ErrTopicAlreadyExists \<or> t topicName = Some ErrNoError \<longrightarrow>
      ensureTopic (Inr t # br) runtime timeout topicName = Some (None, br))
   \<and> (t topicName = Some e \<and> e \<noteq> ErrTopicAlreadyExists \<and> e \<noteq> ErrNoError \<and> e \<noteq> ErrRequestTimedOut \<longrightarrow>
      ensureTopic (Inr t # br) runtime timeout topicName = Some (Some (TopicError e), br)
      \<and> ensureTopics (Inr t # br) runtime (topicName # ts) = Some (Some (TopicError e), br))
   \<and> (list_all (timed_out topicName) rs \<and> runtime 100 timeout = replicate (length rs) Tick @ evs \<longrightarrow>
      ensureTopic (rs @ br) runtime timeout topicName = ensureTopic_loop br evs topicName)
   \<and> (list_all (timed_out topicName) rs \<and> timed_out topicName r
        \<and> runtime 100 timeout = replicate (length rs) Tick @ Timeout # evs \<longrightarrow>
      ensureTopic (rs @ r # br) runtime timeout topicName =
        Some (Some (Errorf (''timeout waiting for topic '' @ topicName)), br))"
proof (intro conjI impI)
  assume "t topicName = Some ErrTopicAlreadyExists \<or> t topicName = Some ErrNoError"
  then show "ensureTopic (Inr t # br) runtime timeout topicName = Some (None, br)"
    unfolding ensureTopic_def by (rule loop_success)
next
  assume a: "t topicName = Some e \<and> e \<noteq> ErrTopicAlreadyExists \<and> e \<noteq> ErrNoError \<and> e \<noteq> ErrRequestTimedOut"
  then show "ensureTopic (Inr t # br) runtime timeout topicName = Some (Some (TopicError e), br)"
    unfolding ensureTopic_def by (intro loop_other_error) simp_all
  then show "ensureTopics (Inr t # br) runtime (topicName # ts) = Some (Some (TopicError e), br)"
    using a by (simp add: ensureTopic_def)
next
  assume "list_all (timed_out topicName) rs \<and> runtime 100 timeout = replicate (length rs) Tick @ evs"
  then show "ensureTopic (rs @ br) runtime timeout topicName = ensureTopic_loop br evs topicName"
    unfolding ensureTopic_def by (simp only: loop_retries)
next
  assume a: "list_all (timed_out topicName) rs \<and> timed_out topicName r
        \<and> runtime 100 timeout = replicate (length rs) Tick @ Timeout # evs"
  then have "ensureTopic (rs @ r # br) runtime timeout topicName =
      ensureTopic_loop (r # br) (Timeout # evs) topicName"
    unfolding ensureTopic_def by (simp only: loop_retries)
  with a show "ensureTopic (rs @ r # br) runtime timeout topicName =
        Some (Some (Errorf (''timeout waiting for topic '' @ topicName)), br)"
    by (simp only: loop_retry(2))
qed

theorem ensureTopic_outcomes_witness:
  "ensureTopic [Inr [peerTopic \<mapsto> ErrTopicAlreadyExists]] ideal_runtime topicCreateTimeout peerTopic
     = Some (None, [])
   \<and> ensureTopic [Inr [peerTopic \<mapsto> ErrOtherKError 38], Inr [peerTopic \<mapsto> ErrNoError]]
        ideal_runtime topicCreateTimeout peerTopic
     = Some (Some (TopicError (ErrOtherKError 38)), [Inr [peerTopic \<mapsto> ErrNoError]])
   \<and> ensureTopics [Inr [peerTopic \<mapsto> ErrOtherKError 38], Inr [peerTopic \<mapsto> ErrNoError]]
        ideal_runtime topicNames
     = Some (Some (TopicError (ErrOtherKError 38)), [Inr [peerTopic \<mapsto> ErrNoError]])
   \<and> ensureTopic (replicate 3 (Inr [peerTopic \<mapsto> ErrRequestTimedOut]) @ [Inr [peerTopic \<mapsto> ErrNoError]])
        ideal_runtime topicCreateTimeout peerTopic
     = Some (None, [])
   \<and> ensureTopic (replicate 10 (Inr [peerTopic \<mapsto> ErrRequestTimedOut])
          @ Inr [peerTopic \<mapsto> ErrRequestTimedOut] # [Inr [peerTopic \<mapsto> ErrNoError]])
        ideal_runtime topicCreateTimeout peerTopic
     = Some (Some (Errorf (''timeout waiting for topic '' @ peerTopic)), [Inr [peerTopic \<mapsto> ErrNoError]])"
proof -
  let ?ok = "[peerTopic \<mapsto> ErrNoError]" and ?ex = "[peerTopic \<mapsto> ErrTopicAlreadyExists]"
  let ?bad = "[peerTopic \<mapsto> ErrOtherKError 38]" and ?to = "[peerTopic \<mapsto> ErrRequestTimedOut]"
  let ?r = "Inr ?to :: error + CreateTopicsResponse"
  have rt: "ideal_runtime 100 topicCreateTimeout = replicate 10 Tick @ [Timeout]"
    by (simp add: ideal_runtime_def topicCreateTimeout_def)
  have r: "timed_out peerTopic ?r" by (simp add: timed_out_def)
  have rs: "list_all (timed_out peerTopic) (replicate n ?r)" for n
    by (simp add: list_all_iff timed_out_def)
  have 1: "ensureTopic [Inr ?ex] ideal_runtime topicCreateTimeout peerTopic = Some (None, [])"
    using ensureTopic_outcomes [where t = ?ex and topicName = peerTopic and br = "[]"
        and runtime = ideal_runtime and timeout = topicCreateTimeout] by simp
  have bad: "?bad peerTopic = Some (ErrOtherKError 38) \<and> ErrOtherKError 38 \<noteq> ErrTopicAlreadyExists
      \<and> ErrOtherKError 38 \<noteq> ErrNoError \<and> ErrOtherKError 38 \<noteq> ErrRequestTimedOut" by simp
  have 2: "ensureTopic [Inr ?bad, Inr ?ok] ideal_runtime topicCreateTimeout peerTopic
      = Some (Some (TopicError (ErrOtherKError 38)), [Inr ?ok])
    \<and> ensureTopics [Inr ?bad, Inr ?ok] ideal_runtime (peerTopic # tl topicNames)
      = Some (Some (TopicError (ErrOtherKError 38)), [Inr ?ok])"
    using bad ensureTopic_outcomes [where t = ?bad and topicName = peerTopic
        and e = "ErrOtherKError 38" and br = "[Inr ?ok]" and runtime = ideal_runtime
        and timeout = topicCreateTimeout and ts = "tl topicNames"] by blast
  have tn: "peerTopic # tl topicNames = topicNames" by (simp add: topicNames_def)
  have rt3: "ideal_runtime 100 topicCreateTimeout =
      replicate (length (replicate 3 ?r)) Tick @ (replicate 7 Tick @ [Timeout])"
    by (simp add: rt replicate_add [symmetric])
  have "ensureTopic (replicate 3 ?r @ [Inr ?ok]) ideal_runtime topicCreateTimeout peerTopic
      = ensureTopic_loop [Inr ?ok] (replicate 7 Tick @ [Timeout]) peerTopic"
    using rs [of 3] rt3 ensureTopic_outcomes [where topicName = peerTopic
        and runtime = ideal_runtime and timeout = topicCreateTimeout and rs = "replicate 3 ?r"
        and evs = "replicate 7 Tick @ [Timeout]" and br = "[Inr ?ok]"] by blast
  then have 3: "ensureTopic (replicate 3 ?r @ [Inr ?ok]) ideal_runtime topicCreateTimeout peerTopic
      = Some (None, [])" by simp
  have rt10: "ideal_runtime 100 topicCreateTimeout =
      replicate (length (replicate 10 ?r)) Tick @ Timeout # []"
    by (simp add: rt)
  have 4: "ensureTopic (replicate 10 ?r @ ?r # [Inr ?ok]) ideal_runtime topicCreateTimeout peerTopic
      = Some (Some (Errorf (''timeout waiting for topic '' @ peerTopic)), [Inr ?ok])"
    using rs [of 10] r rt10 ensureTopic_outcomes [where topicName = peerTopic
        and runtime = ideal_runtime and timeout = topicCreateTimeout and rs = "replicate 10 ?r"
        and r = ?r and evs = "[]" and br = "[Inr ?ok]"] by blast
  from 1 2 3 4 show ?thesis by (simp only: tn simp_thms)
qed

end
